theory Spec2Isabelle
  imports Complex_Main
begin

section \<open>Data model of \<^verbatim>\<open>ElevationPlot/data_manager.py\<close>\<close>

text \<open>
  Python floats are represented by \<^typ>\<open>real\<close>. A coordinate handed to \<^verbatim>\<open>fetch\<close> is the
  pair of strings built by \<^verbatim>\<open>fetch_format_from_to\<close>. A point of the elevation service's
  answer is the dictionary \<^verbatim>\<open>{'location': {'lat', 'lng'}, 'elevation'}\<close>, whose elevation may
  be \<^verbatim>\<open>None\<close>. Dictionaries that lack one of the keys the code reads are outside the model.
\<close>

type_synonym coord = "string \<times> string"

record location =
  lat :: real
  lng :: real

record result =
  location :: location
  elevation :: "real option"

text \<open>
  What \<^verbatim>\<open>_get\<close> can return: the decoded JSON body (a dictionary with its \<^verbatim>\<open>'results'\<close> list,
  or some other JSON value) or the integer status code.
\<close>

datatype py_value = Dict "result list" | StatusCode int | Other

record http_response =
  status_code :: int
  json :: py_value

text \<open>
  \<^verbatim>\<open>requests.get\<close> is the transport. Its answer may change from call to call, so it takes the
  number of requests issued before this one together with the URL.
\<close>

type_synonym transport = "nat \<Rightarrow> string \<Rightarrow> http_response"

datatype error = TimeoutError | ValueError | KeyError | IndexError

definition BASE_URL :: string where
  "BASE_URL = ''https://api.opentopodata.org/v1/srtm90m?locations=''"

definition RETRIES :: nat where
  "RETRIES = 10"

definition CSV_HEADER :: "string list" where
  "CSV_HEADER = [''Lat(X)'', ''Lng(Y)'', ''Elevation(Z)'']"

definition MODES :: "string list" where
  "MODES = [''from_to'', ''around'']"

section \<open>The batched fetch\<close>

text \<open>The function \<^verbatim>\<open>_get\<close>: the JSON body on status 200, the status code otherwise.\<close>

definition api_get :: "transport \<Rightarrow> nat \<Rightarrow> string \<Rightarrow> py_value" where
  "api_get tr k url =
     (let response = tr k url
      in if status_code response = 200 then json response else StatusCode (status_code response))"

fun is_dict :: "py_value \<Rightarrow> bool" where
  "is_dict (Dict rs) = True"
| "is_dict v = False"

text \<open>
  The inner loop \<^verbatim>\<open>for _ in range(RETRIES)\<close>: the first dictionary received ends it, and
  its \<^verbatim>\<open>else\<close> branch (no dictionary in any attempt) is the value \<open>None\<close>. The second
  component is the list of the URLs requested so far, oldest first.
\<close>

fun retry_get :: "transport \<Rightarrow> string \<Rightarrow> nat \<Rightarrow> string list \<Rightarrow> result list option \<times> string list" where
  "retry_get tr url 0 reqs = (None, reqs)"
| "retry_get tr url (Suc n) reqs =
     (case api_get tr (length reqs) url of
        Dict rs \<Rightarrow> (Some rs, reqs @ [url])
      | _ \<Rightarrow> retry_get tr url n (reqs @ [url]))"

text \<open>
  The variables of \<^verbatim>\<open>fetch\<close> that its loop updates, and the requests issued. The variable
  \<^verbatim>\<open>timer\<close>, the wait on the wall clock before a batch and the progress bar are left out:
  they change neither the requests nor the data. The wait is taken to end, as it does when
  the clock advances. The timed run further down adds the clock, \<^verbatim>\<open>timer\<close> and the wait.
\<close>

record fetch_state =
  coords_url :: string
  data :: "result list"
  requests :: "string list"

text \<open>
  One iteration of \<^verbatim>\<open>for index, coord in enumerate(coords)\<close>. An error carries the requests
  issued until it was raised.
\<close>

definition fetch_step :: "transport \<Rightarrow> fetch_state \<Rightarrow> nat \<times> coord \<Rightarrow> error \<times> string list + fetch_state" where
  "fetch_step tr st ic =
     (case ic of (index, coord) \<Rightarrow>
        let url1 = coords_url st @ fst coord @ '','' @ snd coord @ ''|''
        in if index mod 100 = 0
           then (let url2 = butlast url1
                 in case retry_get tr (BASE_URL @ url2) RETRIES (requests st) of
                      (None, reqs) \<Rightarrow> Inl (TimeoutError, reqs)
                    | (Some results, reqs) \<Rightarrow>
                        if list_all (\<lambda>r. elevation r \<noteq> None) results
                        then Inr \<lparr>coords_url = [], data = data st @ results, requests = reqs\<rparr>
                        else Inl (ValueError, reqs))
           else Inr (st\<lparr>coords_url := url1\<rparr>))"

fun fetch_loop :: "transport \<Rightarrow> fetch_state \<Rightarrow> (nat \<times> coord) list \<Rightarrow> error \<times> string list + fetch_state" where
  "fetch_loop tr st [] = Inr st"
| "fetch_loop tr st (ic # ics) =
     (case fetch_step tr st ic of
        Inl e \<Rightarrow> Inl e
      | Inr st' \<Rightarrow> fetch_loop tr st' ics)"

definition fetch_init :: fetch_state where
  "fetch_init = \<lparr>coords_url = [], data = [], requests = []\<rparr>"

text \<open>
  \<^verbatim>\<open>fetch\<close>: the loop has no \<^verbatim>\<open>break\<close>, so its \<^verbatim>\<open>else\<close> branch returns \<^verbatim>\<open>data\<close> whenever
  the loop ends without an exception. The result is paired with the requests issued.
\<close>

definition fetch :: "transport \<Rightarrow> coord list \<Rightarrow> (error + result list) \<times> string list" where
  "fetch tr coords =
     (case fetch_loop tr fetch_init (enumerate 0 coords) of
        Inl (e, reqs) \<Rightarrow> (Inl e, reqs)
      | Inr st \<Rightarrow> (Inr (data st), requests st))"

section \<open>The grid generator\<close>

text \<open>
  The primitives of the Python runtime that the module applies to floats are parameters of
  the model: \<^verbatim>\<open>str(x)\<close>, \<^verbatim>\<open>float(s)\<close> (\<open>None\<close> when it raises \<^verbatim>\<open>ValueError\<close>) and
  \<^verbatim>\<open>round(x, 7)\<close>, together with the directory of the module,
  \<^verbatim>\<open>pathlib.Path(__file__).parent.absolute()\<close>.
\<close>

record runtime =
  str_float :: "real \<Rightarrow> string"
  float_str :: "string \<Rightarrow> real option"
  round7 :: "real \<Rightarrow> real"
  module_dir :: string

text \<open>
  \<^verbatim>\<open>np.linspace(start, stop, num)\<close> is a routine of NumPy. The definition follows its
  documented behaviour over the reals: a negative \<^verbatim>\<open>num\<close> raises \<^verbatim>\<open>ValueError\<close>, and
  otherwise there are \<^verbatim>\<open>num\<close> samples \<^verbatim>\<open>i * step + start\<close> with \<^verbatim>\<open>step = (stop - start) / (num - 1)\<close>,
  the last of which is set to \<^verbatim>\<open>stop\<close> when \<^verbatim>\<open>num > 1\<close>.
\<close>

definition linspace :: "real \<Rightarrow> real \<Rightarrow> int \<Rightarrow> error + real list" where
  "linspace start stop num =
     (if num < 0 then Inl ValueError
      else let n = nat num;
               dv = num - 1;
               delta = stop - start;
               y = (if dv > 0
                    then map (\<lambda>i. real i * (delta / real_of_int dv) + start) [0..<n]
                    else map (\<lambda>i. real i * delta + start) [0..<n])
           in Inr (if num > 1 then y[n - 1 := stop] else y))"

text \<open>
  The loop of \<^verbatim>\<open>fetch_format_from_to\<close> over the latitudes. The inner \<^verbatim>\<open>np.linspace\<close> is
  evaluated once in every iteration, and in none when there is no latitude.
\<close>

fun from_to_loop :: "runtime \<Rightarrow> real \<Rightarrow> real \<Rightarrow> int \<Rightarrow> coord list \<Rightarrow> real list \<Rightarrow> error + coord list" where
  "from_to_loop rt x0 x1 nx formatted_coords [] = Inr formatted_coords"
| "from_to_loop rt x0 x1 nx formatted_coords (y # ys) =
     (case linspace x0 x1 nx of
        Inl e \<Rightarrow> Inl e
      | Inr xs \<Rightarrow>
          from_to_loop rt x0 x1 nx
            (formatted_coords @ map (\<lambda>x. (str_float rt (round7 rt x), str_float rt y)) xs) ys)"

definition fetch_format_from_to :: "runtime \<Rightarrow> real \<times> real \<Rightarrow> real \<times> real \<Rightarrow> int \<Rightarrow> int \<Rightarrow> error + coord list" where
  "fetch_format_from_to rt from_coords to_coords horizontal_data_points vertical_data_points =
     (case linspace (snd from_coords) (snd to_coords) vertical_data_points of
        Inl e \<Rightarrow> Inl e
      | Inr ys \<Rightarrow> from_to_loop rt (fst from_coords) (fst to_coords) horizontal_data_points [] ys)"

definition fetch_format_around :: "runtime \<Rightarrow> real \<times> real \<Rightarrow> int \<Rightarrow> int \<Rightarrow> real \<Rightarrow> real \<Rightarrow> error + coord list" where
  "fetch_format_around rt center_coords horizontal_data_points vertical_data_points width height =
     (let from_coords = (fst center_coords - width / 2, snd center_coords - height / 2);
          to_coods = (fst center_coords + width / 2, snd center_coords + height / 2)
      in fetch_format_from_to rt from_coords to_coods horizontal_data_points vertical_data_points)"

section \<open>The stored plots\<close>

text \<open>
  A stored file is the list of its CSV rows, each a list of cells, as \<^verbatim>\<open>csv.writer\<close> is
  given them and \<^verbatim>\<open>csv.reader\<close> yields them. The storage maps a path to the file there.
  Failures of the operating system (a missing directory, a refused permission) are outside the
  model: a path can always be opened for writing.
\<close>

type_synonym csv_row = "string list"

type_synonym file_system = "string \<rightharpoonup> csv_row list"

type_synonym dataset = "real list \<times> real list \<times> real list"

definition plot_path :: "runtime \<Rightarrow> string \<Rightarrow> string" where
  "plot_path rt plot_name = module_dir rt @ ''/data/'' @ plot_name @ ''.csv''"

definition isfile :: "file_system \<Rightarrow> string \<Rightarrow> bool" where
  "isfile fs path = (fs path \<noteq> None)"

definition store_plot :: "runtime \<Rightarrow> real list \<Rightarrow> real list \<Rightarrow> real list \<Rightarrow> string \<Rightarrow> bool \<Rightarrow> file_system \<Rightarrow> bool \<times> file_system" where
  "store_plot rt X Y Z plot_name overwrite fs =
     (let path = plot_path rt plot_name
      in if length X = length Y \<and> length Y = length Z
         then (if overwrite \<or> \<not> isfile fs path
               then (True,
                     fs(path \<mapsto> CSV_HEADER #
                          map (\<lambda>i. [str_float rt (X ! i), str_float rt (Y ! i), str_float rt (Z ! i)])
                            [0..<length X]))
               else (False, fs))
         else (False, fs))"

text \<open>\<^verbatim>\<open>float(row[i])\<close>: \<^verbatim>\<open>IndexError\<close> for a missing cell, \<^verbatim>\<open>ValueError\<close> for a cell that is no number.\<close>

definition float_cell :: "runtime \<Rightarrow> csv_row \<Rightarrow> nat \<Rightarrow> error + real" where
  "float_cell rt row i =
     (if i < length row
      then (case float_str rt (row ! i) of None \<Rightarrow> Inl ValueError | Some v \<Rightarrow> Inr v)
      else Inl IndexError)"

fun load_loop :: "runtime \<Rightarrow> dataset \<Rightarrow> (nat \<times> csv_row) list \<Rightarrow> error + dataset" where
  "load_loop rt xyz [] = Inr xyz"
| "load_loop rt (x, y, z) ((index, row) # rest) =
     (if index > 0
      then (case float_cell rt row 0 of
              Inl e \<Rightarrow> Inl e
            | Inr a \<Rightarrow>
                (case float_cell rt row 1 of
                   Inl e \<Rightarrow> Inl e
                 | Inr b \<Rightarrow>
                     (case float_cell rt row 2 of
                        Inl e \<Rightarrow> Inl e
                      | Inr c \<Rightarrow> load_loop rt (x @ [a], y @ [b], z @ [c]) rest)))
      else load_loop rt (x, y, z) rest)"

text \<open>\<^verbatim>\<open>load_data\<close>: \<open>Inr None\<close> is the return value \<^verbatim>\<open>None\<close> (no file of that name).\<close>

definition load_data :: "runtime \<Rightarrow> file_system \<Rightarrow> string \<Rightarrow> error + dataset option" where
  "load_data rt fs plot_name =
     (let path = plot_path rt plot_name
      in case fs path of
           Some rows \<Rightarrow>
             (case load_loop rt ([], [], []) (enumerate 0 rows) of
                Inl e \<Rightarrow> Inl e
              | Inr xyz \<Rightarrow> Inr (Some xyz))
         | None \<Rightarrow> Inr None)"

section \<open>The API call and the script \<^verbatim>\<open>main.py\<close>\<close>

text \<open>
  \<^verbatim>\<open>plot_format\<close> copies the three fields of every point. It is applied to what \<^verbatim>\<open>fetch\<close>
  returns, where every point has an elevation (lemma \<open>fetch_elevations\<close> below).
\<close>

definition plot_format :: "result list \<Rightarrow> dataset" where
  "plot_format response =
     (map (\<lambda>r. lat (location r)) response,
      map (\<lambda>r. lng (location r)) response,
      map (\<lambda>r. the (elevation r)) response)"

text \<open>The keyword arguments of \<^verbatim>\<open>API_call\<close>; reading one that was not passed raises \<^verbatim>\<open>KeyError\<close>.\<close>

record kwargs =
  from_coords :: "(real \<times> real) option"
  to_coords :: "(real \<times> real) option"
  center_coords :: "(real \<times> real) option"
  horizontal_data_points :: "int option"
  vertical_data_points :: "int option"
  width :: "real option"
  height :: "real option"

definition kw :: "'a option \<Rightarrow> error + 'a" where
  "kw v = (case v of None \<Rightarrow> Inl KeyError | Some a \<Rightarrow> Inr a)"

definition raising :: "error + 'a \<Rightarrow> ('a \<Rightarrow> error + 'b) \<Rightarrow> error + 'b" where
  "raising m f = (case m of Inl e \<Rightarrow> Inl e | Inr a \<Rightarrow> f a)"

definition format_coords :: "runtime \<Rightarrow> string \<Rightarrow> kwargs \<Rightarrow> error + coord list" where
  "format_coords rt mode kwargs =
     (if mode = MODES ! 0
      then raising (kw (from_coords kwargs)) (\<lambda>f.
           raising (kw (to_coords kwargs)) (\<lambda>t.
           raising (kw (horizontal_data_points kwargs)) (\<lambda>h.
           raising (kw (vertical_data_points kwargs)) (\<lambda>v.
             fetch_format_from_to rt f t h v))))
      else raising (kw (center_coords kwargs)) (\<lambda>c.
           raising (kw (horizontal_data_points kwargs)) (\<lambda>h.
           raising (kw (vertical_data_points kwargs)) (\<lambda>v.
           raising (kw (width kwargs)) (\<lambda>w.
           raising (kw (height kwargs)) (\<lambda>ht.
             fetch_format_around rt c h v w ht))))))"

definition API_call :: "runtime \<Rightarrow> transport \<Rightarrow> string \<Rightarrow> kwargs \<Rightarrow> (error + dataset) \<times> string list" where
  "API_call rt tr mode kwargs =
     (if mode \<in> set MODES
      then (case format_coords rt mode kwargs of
              Inl e \<Rightarrow> (Inl e, [])
            | Inr formatted_coords \<Rightarrow>
                (case fetch tr formatted_coords of
                   (Inl e, reqs) \<Rightarrow> (Inl e, reqs)
                 | (Inr response, reqs) \<Rightarrow> (Inr (plot_format response), reqs)))
      else (Inl ValueError, []))"

text \<open>
  The body of \<^verbatim>\<open>main.py\<close> up to the call of the renderer, with the plot name, the mode and
  the keyword arguments it writes as literals taken as arguments. The result is the three lists
  handed to the renderer, the storage afterwards and the requests issued. The script calls
  \<^verbatim>\<open>store_plot\<close> without \<^verbatim>\<open>overwrite\<close>, whose default is \<^verbatim>\<open>True\<close>.
\<close>

definition main_with :: "runtime \<Rightarrow> transport \<Rightarrow> file_system \<Rightarrow> string \<Rightarrow> string \<Rightarrow> kwargs \<Rightarrow> (error + dataset) \<times> file_system \<times> string list" where
  "main_with rt tr fs plot_name mode kwargs =
     (case load_data rt fs plot_name of
        Inl e \<Rightarrow> (Inl e, fs, [])
      | Inr (Some coords) \<Rightarrow> (Inr coords, fs, [])
      | Inr None \<Rightarrow>
          (case API_call rt tr mode kwargs of
             (Inl e, reqs) \<Rightarrow> (Inl e, fs, reqs)
           | (Inr (X, Y, Z), reqs) \<Rightarrow>
               (Inr (X, Y, Z), snd (store_plot rt X Y Z plot_name True fs), reqs)))"

definition main :: "runtime \<Rightarrow> transport \<Rightarrow> file_system \<Rightarrow> (error + dataset) \<times> file_system \<times> string list" where
  "main rt tr fs =
     main_with rt tr fs ''mt_st_helens'' ''around''
       \<lparr>from_coords = None, to_coords = None,
        center_coords = Some (46.1914, -122.1956),
        horizontal_data_points = Some 50, vertical_data_points = Some 50,
        width = Some 0.075, height = Some 0.075\<rparr>"

section \<open>The fetch on the wall clock\<close>

text \<open>
  The wall clock is a parameter of the timed run: \<open>clock k\<close> is the instant, in seconds, of
  the \<open>k\<close>-th timed event of a run of \<^verbatim>\<open>fetch\<close>. The timed events are the calls of
  \<^verbatim>\<open>time.time()\<close>, which return the instant at which they happen, and the starts of the
  requests, in the order in which the code performs them. How long a request or one turn of
  the waiting loop takes is the difference of two consecutive instants.
\<close>

type_synonym clock = "nat \<Rightarrow> real"

text \<open>
  The loop \<^verbatim>\<open>while time.time() - timer < 1: pass\<close>. Every test of its condition is one event.
  The fuel bounds the number of tests; \<open>None\<close> says that the loop is still waiting when the
  fuel is used up. Otherwise the result is the index of the event that follows the test that
  ended the loop, which is the start of the first request of the batch.
\<close>

fun busy_wait :: "clock \<Rightarrow> real \<Rightarrow> nat \<Rightarrow> nat \<Rightarrow> nat option" where
  "busy_wait clock timer 0 k = None"
| "busy_wait clock timer (Suc fuel) k =
     (if clock k - timer < 1 then busy_wait clock timer fuel (Suc k) else Some (Suc k))"

text \<open>
  How a timed run ends (\<open>Hung\<close>: in the waiting loop), and the variables of the loop of
  \<^verbatim>\<open>fetch\<close> together with \<^verbatim>\<open>timer\<close>, the number of events so far and the instants at which the
  batches requested so far were started.
\<close>

datatype outcome = Hung | Raised error | Returned "result list"

record timed_state =
  loop :: fetch_state
  timer :: real
  events :: nat
  starts :: "real list"

type_synonym timed_end = "outcome \<times> real list \<times> string list"

text \<open>
  One iteration with the clock. At an index that is a multiple of 100 the loop waits, then
  issues the requests of \<open>fetch_step\<close>, one event each (their number is the growth of the list
  of requests), and when the batch has passed its checks reads \<^verbatim>\<open>timer = time.time()\<close>. A run
  that ends here carries the starts of the batches and the requests issued until then.
\<close>

definition timed_step :: "clock \<Rightarrow> nat \<Rightarrow> transport \<Rightarrow> timed_state \<Rightarrow> nat \<times> coord \<Rightarrow> timed_end + timed_state" where
  "timed_step clock fuel tr ts ic =
     (if fst ic mod 100 = 0
      then (case busy_wait clock (timer ts) fuel (events ts) of
              None \<Rightarrow> Inl (Hung, starts ts, requests (loop ts))
            | Some k \<Rightarrow>
                (case fetch_step tr (loop ts) ic of
                   Inl (e, reqs) \<Rightarrow> Inl (Raised e, starts ts @ [clock k], reqs)
                 | Inr st \<Rightarrow>
                     let n = length (requests st) - length (requests (loop ts))
                     in Inr \<lparr>loop = st, timer = clock (k + n), events = Suc (k + n),
                             starts = starts ts @ [clock k]\<rparr>))
      else (case fetch_step tr (loop ts) ic of
              Inl (e, reqs) \<Rightarrow> Inl (Raised e, starts ts, reqs)
            | Inr st \<Rightarrow> Inr (ts\<lparr>loop := st\<rparr>)))"

fun timed_loop :: "clock \<Rightarrow> nat \<Rightarrow> transport \<Rightarrow> timed_state \<Rightarrow> (nat \<times> coord) list \<Rightarrow> timed_end + timed_state" where
  "timed_loop clock fuel tr ts [] = Inr ts"
| "timed_loop clock fuel tr ts (ic # ics) =
     (case timed_step clock fuel tr ts ic of
        Inl r \<Rightarrow> Inl r
      | Inr ts' \<Rightarrow> timed_loop clock fuel tr ts' ics)"

definition timed_init :: "clock \<Rightarrow> timed_state" where
  "timed_init clock = \<lparr>loop = fetch_init, timer = clock 0 - 1, events = 1, starts = []\<rparr>"

text \<open>
  The timed run of \<^verbatim>\<open>fetch\<close>: event 0 is \<^verbatim>\<open>timer = time.time() - 1\<close>.
\<close>

definition timed_fetch :: "clock \<Rightarrow> nat \<Rightarrow> transport \<Rightarrow> coord list \<Rightarrow> timed_end" where
  "timed_fetch clock fuel tr coords =
     (case timed_loop clock fuel tr (timed_init clock) (enumerate 0 coords) of
        Inl r \<Rightarrow> r
      | Inr ts \<Rightarrow> (Returned (data (loop ts)), starts ts, requests (loop ts)))"



section \<open>Sample inputs\<close>

text \<open>
  A runtime with a finite table of float renderings; four transports: one that is down, one
  that answers every request with one point per requested coordinate, one that fails twice
  and then answers with a point that has no elevation, and one that answers the first request
  only, with the state of the loop after that first batch of a hundred coordinates; the
  keyword arguments of a grid of one point, a storage that holds one plot of one point, and
  a clock on which consecutive events are 0.3 seconds apart. They are used to evaluate the
  definitions on concrete inputs.
\<close>

definition demo_str :: "real \<Rightarrow> string" where
  "demo_str x = (if x = 0 then ''0.0'' else if x = 1 then ''1.0'' else if x = 1 / 2 then ''0.5'' else ''2.5'')"

definition demo_float :: "string \<Rightarrow> real option" where
  "demo_float s =
     (if s = ''0.0'' then Some 0 else if s = ''1.0'' then Some 1
      else if s = ''0.5'' then Some (1 / 2) else if s = ''2.5'' then Some (5 / 2) else None)"

definition demo_runtime :: runtime where
  "demo_runtime =
     \<lparr>str_float = demo_str, float_str = demo_float, round7 = (\<lambda>x. x),
      module_dir = ''/srv/ElevationPlot''\<rparr>"

definition sample_point :: result where
  "sample_point = \<lparr>location = \<lparr>lat = 0, lng = 0\<rparr>, elevation = Some 1\<rparr>"

definition void_point :: result where
  "void_point = \<lparr>location = \<lparr>lat = 0, lng = 0\<rparr>, elevation = None\<rparr>"

definition down_transport :: transport where
  "down_transport k url = \<lparr>status_code = 503, json = Other\<rparr>"

definition echo_transport :: transport where
  "echo_transport k url =
     \<lparr>status_code = 200,
      json = Dict (replicate (Suc (count_list url (CHR ''|''))) sample_point)\<rparr>"

definition flaky_void_transport :: transport where
  "flaky_void_transport k url =
     (if k < 2 then \<lparr>status_code = 500, json = Other\<rparr>
      else \<lparr>status_code = 200, json = Dict [void_point]\<rparr>)"

definition first_only_transport :: transport where
  "first_only_transport k url =
     (if k = 0 then \<lparr>status_code = 200, json = Dict [sample_point]\<rparr>
      else \<lparr>status_code = 503, json = Other\<rparr>)"

definition after_first_batch :: fetch_state where
  "after_first_batch =
     \<lparr>coords_url = concat (replicate 99 ''0.5,2.5|''), data = [sample_point],
      requests = [BASE_URL @ ''1.0,2.5'']\<rparr>"

definition sample_kwargs :: kwargs where
  "sample_kwargs =
     \<lparr>from_coords = None, to_coords = None, center_coords = Some (0, 0),
      horizontal_data_points = Some 1, vertical_data_points = Some 1,
      width = Some 0, height = Some 0\<rparr>"

definition stored_sample :: file_system where
  "stored_sample = [plot_path demo_runtime ''mt_st_helens'' \<mapsto> [CSV_HEADER, [''0.0'', ''1.0'', ''2.5'']]]"


section \<open>Properties of the fetch\<close>

lemma fetch_loop_append:
  "fetch_loop tr st (xs @ ys) =
     (case fetch_loop tr st xs of Inl e \<Rightarrow> Inl e | Inr st' \<Rightarrow> fetch_loop tr st' ys)"
  by (induction xs arbitrary: st) (auto split: sum.splits)

lemma retry_get_all_fail:
  "\<forall>k<n. \<not> is_dict (api_get tr (length reqs + k) url) \<Longrightarrow>
   retry_get tr url n reqs = (None, reqs @ replicate n url)"
proof (induction n arbitrary: reqs)
  case 0
  then show ?case by simp
next
  case (Suc n)
  from Suc.prems have first: "\<not> is_dict (api_get tr (length reqs) url)"
    by (metis add.right_neutral zero_less_Suc)
  have rest: "\<forall>k<n. \<not> is_dict (api_get tr (length (reqs @ [url]) + k) url)"
  proof (intro allI impI)
    fix k assume "k < n"
    then have "\<not> is_dict (api_get tr (length reqs + Suc k) url)"
      using Suc.prems by (meson Suc_less_eq)
    then show "\<not> is_dict (api_get tr (length (reqs @ [url]) + k) url)" by simp
  qed
  have "retry_get tr url (Suc n) reqs = retry_get tr url n (reqs @ [url])"
    using first by (cases "api_get tr (length reqs) url") simp_all
  also have "\<dots> = (None, (reqs @ [url]) @ replicate n url)"
    by (rule Suc.IH [OF rest])
  finally show ?case by (simp add: replicate_app_Cons_same)
qed

lemma retry_get_first_dict:
  "j < n \<Longrightarrow> \<forall>k<j. \<not> is_dict (api_get tr (length reqs + k) url) \<Longrightarrow>
   api_get tr (length reqs + j) url = Dict rs \<Longrightarrow>
   retry_get tr url n reqs = (Some rs, reqs @ replicate (Suc j) url)"
proof (induction n arbitrary: j reqs)
  case 0
  then show ?case by simp
next
  case (Suc n)
  show ?case
  proof (cases j)
    case 0
    with Suc.prems show ?thesis by simp
  next
    case (Suc i)
    with Suc.prems have first: "\<not> is_dict (api_get tr (length reqs) url)"
      by (metis add.right_neutral zero_less_Suc)
    have i: "i < n" using Suc Suc.prems by simp
    have rest: "\<forall>k<i. \<not> is_dict (api_get tr (length (reqs @ [url]) + k) url)"
    proof (intro allI impI)
      fix k assume "k < i"
      then have "\<not> is_dict (api_get tr (length reqs + Suc k) url)"
        using Suc.prems Suc by (meson Suc_less_eq)
      then show "\<not> is_dict (api_get tr (length (reqs @ [url]) + k) url)" by simp
    qed
    have hit: "api_get tr (length (reqs @ [url]) + i) url = Dict rs"
      using Suc.prems Suc by simp
    have "retry_get tr url (Suc n) reqs = retry_get tr url n (reqs @ [url])"
      using first by (cases "api_get tr (length reqs) url") simp_all
    also have "\<dots> = (Some rs, (reqs @ [url]) @ replicate (Suc i) url)"
      by (rule Suc.IH [OF i rest hit])
    finally show ?thesis using Suc by (simp add: replicate_app_Cons_same)
  qed
qed

lemma enumerate_split:
  "enumerate 0 (pre @ c # cs) = enumerate 0 pre @ (length pre, c) # enumerate (Suc (length pre)) cs"
  by (simp add: enumerate_append_eq)

lemma fetch_step_elevations:
  assumes "fetch_step tr st ic = Inr st'" "\<forall>r \<in> set (data st). elevation r \<noteq> None"
  shows "\<forall>r \<in> set (data st'). elevation r \<noteq> None"
  using assms
  by (auto simp: fetch_step_def Let_def list_all_iff split: prod.splits if_splits option.splits)

lemma fetch_loop_elevations:
  assumes "fetch_loop tr st ics = Inr st'" "\<forall>r \<in> set (data st). elevation r \<noteq> None"
  shows "\<forall>r \<in> set (data st'). elevation r \<noteq> None"
  using assms
proof (induction ics arbitrary: st)
  case Nil
  then show ?case by simp
next
  case (Cons ic ics)
  then show ?case
    by (cases "fetch_step tr st ic") (auto dest: fetch_step_elevations)
qed

lemma fetch_elevations:
  assumes "fetch tr coords = (Inr rs, reqs)"
  shows "\<forall>r \<in> set rs. elevation r \<noteq> None"
proof -
  from assms obtain st where "fetch_loop tr fetch_init (enumerate 0 coords) = Inr st" "rs = data st"
    by (auto simp: fetch_def split: sum.splits prod.splits)
  then show ?thesis
    using fetch_loop_elevations [of tr fetch_init "enumerate 0 coords" st]
    by (simp add: fetch_init_def)
qed

text \<open>
  Claim C3. Let the loop have handled the coordinates \<open>pre\<close> without an error and stand at a
  coordinate \<open>c\<close> whose index is a multiple of 100, where a batch is requested. If none of
  the \<open>RETRIES\<close> attempts for that batch returns a dictionary, the fetch raises
  \<^verbatim>\<open>TimeoutError\<close> (the code's error for an unavailable service), so the caller receives no
  data, and the requests issued are those before the batch followed by exactly \<open>RETRIES\<close>
  requests for it: none is issued afterwards, whatever coordinates \<open>cs\<close> remain.
\<close>

theorem fetch_retries_exhausted:
  assumes "fetch_loop tr fetch_init (enumerate 0 pre) = Inr st"
    and "length pre mod 100 = 0"
    and "\<forall>k<RETRIES. \<not> is_dict (api_get tr (length (requests st) + k)
            (BASE_URL @ coords_url st @ fst c @ '','' @ snd c))"
  shows "fetch tr (pre @ c # cs) =
           (Inl TimeoutError,
            requests st @ replicate RETRIES (BASE_URL @ coords_url st @ fst c @ '','' @ snd c))"
proof -
  have "fetch_step tr st (length pre, c) =
          Inl (TimeoutError,
            requests st @ replicate RETRIES (BASE_URL @ coords_url st @ fst c @ '','' @ snd c))"
    using assms(2) retry_get_all_fail [OF assms(3)]
    by (simp add: fetch_step_def butlast_append)
  then show ?thesis
    using assms(1) by (simp add: fetch_def enumerate_split fetch_loop_append)
qed

text \<open>
  The theorem at the second batch of 102 coordinates, for a transport that answers the first
  request and fails from then on: the point of the first batch is not returned.
\<close>

theorem fetch_retries_exhausted_witness:
  "fetch_loop first_only_transport fetch_init
     (enumerate 0 ((''1.0'', ''2.5'') # replicate 99 (''0.5'', ''2.5''))) = Inr after_first_batch \<and>
   length ((''1.0'', ''2.5'') # replicate 99 (''0.5'', ''2.5'')) mod 100 = 0 \<and>
   fetch first_only_transport
     (((''1.0'', ''2.5'') # replicate 99 (''0.5'', ''2.5'')) @ (''0.0'', ''0.0'') # [(''1.0'', ''1.0'')]) =
     (Inl TimeoutError,
      [BASE_URL @ ''1.0,2.5''] @
      replicate 10 (BASE_URL @ concat (replicate 99 ''0.5,2.5|'') @ ''0.0,0.0''))"
proof -
  have h1: "fetch_loop first_only_transport fetch_init
     (enumerate 0 ((''1.0'', ''2.5'') # replicate 99 (''0.5'', ''2.5''))) = Inr after_first_batch"
    by code_simp
  have h2: "length ((''1.0'', ''2.5'') # replicate 99 (''0.5'', ''2.5'')) mod 100 = 0"
    by simp
  have h3: "\<forall>k<RETRIES. \<not> is_dict (api_get first_only_transport
              (length (requests after_first_batch) + k)
              (BASE_URL @ coords_url after_first_batch @ fst (''0.0'', ''0.0'') @ '','' @
                 snd (''0.0'', ''0.0'')))"
    by (simp add: api_get_def first_only_transport_def after_first_batch_def)
  have run: "fetch first_only_transport
     (((''1.0'', ''2.5'') # replicate 99 (''0.5'', ''2.5'')) @ (''0.0'', ''0.0'') # [(''1.0'', ''1.0'')]) =
     (Inl TimeoutError,
      [BASE_URL @ ''1.0,2.5''] @
      replicate 10 (BASE_URL @ concat (replicate 99 ''0.5,2.5|'') @ ''0.0,0.0''))"
    using fetch_retries_exhausted [OF h1 h2 h3, of "[(''1.0'', ''1.0'')]"]
    by (simp add: after_first_batch_def RETRIES_def)
  show ?thesis using h1 h2 run by blast
qed

text \<open>
  Claim C4. Under the same conditions, if the first dictionary received for the batch (after
  \<open>j < RETRIES\<close> attempts without one) holds a point whose elevation is \<^verbatim>\<open>None\<close>, the fetch
  raises \<^verbatim>\<open>ValueError\<close> (the code's error for an invalid response) and returns no data, neither
  the offending points nor the others. The request that brought the dictionary is the last one:
  the batch is not requested again.
\<close>

theorem fetch_missing_elevation:
  assumes "fetch_loop tr fetch_init (enumerate 0 pre) = Inr st"
    and "length pre mod 100 = 0"
    and "j < RETRIES"
    and "\<forall>k<j. \<not> is_dict (api_get tr (length (requests st) + k)
            (BASE_URL @ coords_url st @ fst c @ '','' @ snd c))"
    and "api_get tr (length (requests st) + j)
            (BASE_URL @ coords_url st @ fst c @ '','' @ snd c) = Dict rs"
    and "\<exists>r \<in> set rs. elevation r = None"
  shows "fetch tr (pre @ c # cs) =
           (Inl ValueError,
            requests st @ replicate (Suc j) (BASE_URL @ coords_url st @ fst c @ '','' @ snd c))"
proof -
  have "\<not> list_all (\<lambda>r. elevation r \<noteq> None) rs"
    using assms(6) by (auto simp: list_all_iff)
  then have "fetch_step tr st (length pre, c) =
          Inl (ValueError,
            requests st @ replicate (Suc j) (BASE_URL @ coords_url st @ fst c @ '','' @ snd c))"
    using assms(2) retry_get_first_dict [OF assms(3) assms(4) assms(5)]
    by (simp add: fetch_step_def butlast_append)
  then show ?thesis
    using assms(1) by (simp add: fetch_def enumerate_split fetch_loop_append)
qed

text \<open>
  The theorem at a transport that fails twice and then answers with a point without elevation.
\<close>

theorem fetch_missing_elevation_witness:
  "fetch_loop flaky_void_transport fetch_init (enumerate 0 []) = Inr fetch_init \<and>
   (2::nat) < RETRIES \<and>
   api_get flaky_void_transport 2 (BASE_URL @ ''1.0,2.5'') = Dict [void_point] \<and>
   elevation void_point = None \<and>
   fetch flaky_void_transport ([] @ (''1.0'', ''2.5'') # [(''0.5'', ''2.5'')]) =
     (Inl ValueError, replicate 3 (BASE_URL @ ''1.0,2.5''))"
proof -
  have h1: "fetch_loop flaky_void_transport fetch_init (enumerate 0 []) = Inr fetch_init" by simp
  have h2: "length ([] :: coord list) mod 100 = 0" by simp
  have h3: "(2::nat) < RETRIES" by (simp add: RETRIES_def)
  have h4: "\<forall>k<2. \<not> is_dict (api_get flaky_void_transport (length (requests fetch_init) + k)
            (BASE_URL @ coords_url fetch_init @ fst (''1.0'', ''2.5'') @ '','' @ snd (''1.0'', ''2.5'')))"
    by (simp add: api_get_def flaky_void_transport_def fetch_init_def)
  have h5: "api_get flaky_void_transport (length (requests fetch_init) + 2)
            (BASE_URL @ coords_url fetch_init @ fst (''1.0'', ''2.5'') @ '','' @ snd (''1.0'', ''2.5''))
            = Dict [void_point]"
    by (simp add: api_get_def flaky_void_transport_def fetch_init_def)
  have h6: "\<exists>r \<in> set [void_point]. elevation r = None" by (simp add: void_point_def)
  have h5': "api_get flaky_void_transport 2 (BASE_URL @ ''1.0,2.5'') = Dict [void_point]"
    by (simp add: api_get_def flaky_void_transport_def)
  have h6': "elevation void_point = None" by (simp add: void_point_def)
  have run: "fetch flaky_void_transport ([] @ (''1.0'', ''2.5'') # [(''0.5'', ''2.5'')]) =
     (Inl ValueError, replicate 3 (BASE_URL @ ''1.0,2.5''))"
    using fetch_missing_elevation [OF h1 h2 h3 h4 h5 h6, of "[(''0.5'', ''2.5'')]"]
    by (simp add: fetch_init_def)
  show ?thesis
    using h1 h3 h5' h6' run by blast
qed

text \<open>
  Between two indices that are multiples of 100 the loop only gathers coordinates in
  \<^verbatim>\<open>coords_url\<close>. Hence coordinates after the last such index change neither the data returned
  nor the requests issued: of the 2500 coordinates of the grid in \<^verbatim>\<open>main.py\<close>, the last 99 are
  ignored.
\<close>

lemma fetch_loop_gather:
  assumes "\<forall>k<length cs. (n + k) mod 100 \<noteq> 0"
  shows "fetch_loop tr st (enumerate n cs) =
           Inr (st\<lparr>coords_url := coords_url st @ concat (map (\<lambda>c. fst c @ '','' @ snd c @ ''|'') cs)\<rparr>)"
  using assms
proof (induction cs arbitrary: st n)
  case Nil
  then show ?case by simp
next
  case (Cons c cs)
  from Cons.prems have here: "n mod 100 \<noteq> 0"
    by (metis add.right_neutral length_greater_0_conv list.distinct(1))
  have rest: "\<forall>k<length cs. (Suc n + k) mod 100 \<noteq> 0"
  proof (intro allI impI)
    fix k assume "k < length cs"
    then have "(n + Suc k) mod 100 \<noteq> 0" using Cons.prems by (metis Suc_less_eq length_Cons)
    then show "(Suc n + k) mod 100 \<noteq> 0" by simp
  qed
  show ?case
    using here Cons.IH [OF rest] by (simp add: fetch_step_def)
qed

lemma fetch_ignores_trailing_coords:
  assumes "\<forall>k<length rest. (length pre + k) mod 100 \<noteq> 0"
  shows "fetch tr (pre @ rest) = fetch tr pre"
proof (cases "fetch_loop tr fetch_init (enumerate 0 pre)")
  case (Inl e)
  then show ?thesis
    by (simp add: fetch_def enumerate_append_eq fetch_loop_append)
next
  case (Inr st)
  then show ?thesis
    using fetch_loop_gather [OF assms, of tr st]
    by (simp add: fetch_def enumerate_append_eq fetch_loop_append)
qed

lemma fetch_ignores_last_99_of_2500:
  assumes "length coords = 2500"
  shows "fetch tr coords = fetch tr (take 2401 coords)"
proof -
  have ar: "(2401 + k) mod 100 \<noteq> 0" if "k < 99" for k :: nat
    using that by presburger
  have "\<forall>k<length (drop 2401 coords). (length (take 2401 coords) + k) mod 100 \<noteq> 0"
    using assms ar by simp
  from fetch_ignores_trailing_coords [OF this, of tr] show ?thesis by simp
qed

text \<open>
  Claim C1 does not hold of \<^verbatim>\<open>fetch\<close>. A batch is requested only at an index that is a multiple
  of 100, and the coordinates gathered after the last such index are never requested. For two
  coordinates and a transport that answers every request with one point per requested
  coordinate, a single request is issued, for the first coordinate alone, and one point is
  returned.
\<close>

theorem fetch_drops_trailing_coordinate:
  "fetch echo_transport [(''1.0'', ''2.5''), (''0.5'', ''2.5'')] =
     (Inr [sample_point], [BASE_URL @ ''1.0,2.5''])"
  by code_simp

section \<open>Properties of the grid generator\<close>

lemma linspace_neg: "num < 0 \<Longrightarrow> linspace a b num = Inl ValueError"
  by (simp add: linspace_def)

lemma linspace_zero: "linspace a b 0 = Inr []"
  by (simp add: linspace_def)

lemma linspace_length:
  "0 \<le> num \<Longrightarrow> \<exists>xs. linspace a b num = Inr xs \<and> length xs = nat num"
  by (simp add: linspace_def Let_def)

lemma linspace_nth:
  assumes "1 \<le> num" "i < nat num"
  shows "\<exists>xs. linspace a b num = Inr xs \<and> length xs = nat num \<and>
           xs ! i = a + real i * ((b - a) / real_of_int (num - 1))"
proof (cases "num = 1")
  case True
  with assms show ?thesis by (simp add: linspace_def Let_def)
next
  case False
  with assms have gt: "1 < num" by simp
  show ?thesis
  proof (cases "i = nat num - 1")
    case True
    have "real (nat num - 1) = real_of_int (num - 1)" using gt by simp
    then have "a + real i * ((b - a) / real_of_int (num - 1)) = b"
      using gt True by simp
    then show ?thesis using gt True assms by (simp add: linspace_def Let_def)
  next
    case False
    then show ?thesis using gt assms by (simp add: linspace_def Let_def add.commute)
  qed
qed

lemma from_to_loop_ok:
  assumes "linspace x0 x1 nx = Inr xs"
  shows "from_to_loop rt x0 x1 nx acc ys =
           Inr (acc @ concat (map (\<lambda>y. map (\<lambda>x. (str_float rt (round7 rt x), str_float rt y)) xs) ys))"
  using assms by (induction ys arbitrary: acc) simp_all

lemma from_to_loop_err:
  assumes "linspace x0 x1 nx = Inl e" "ys \<noteq> []"
  shows "from_to_loop rt x0 x1 nx acc ys = Inl e"
  using assms by (cases ys) simp_all

lemma concat_map_nth:
  assumes "i < length ys" "j < length xs"
  shows "concat (map (\<lambda>y. map (f y) xs) ys) ! (i * length xs + j) = f (ys ! i) (xs ! j)"
  using assms
proof (induction ys arbitrary: i)
  case Nil
  then show ?case by simp
next
  case (Cons y ys)
  show ?case
  proof (cases i)
    case 0
    with Cons.prems show ?thesis by (simp add: nth_append)
  next
    case (Suc k)
    with Cons.prems have "k < length ys" by simp
    from Cons.IH [OF this Cons.prems(2)] Suc show ?thesis
      by (simp add: nth_append add.assoc)
  qed
qed

lemma length_concat_map_const:
  "length (concat (map (\<lambda>y. map (f y) xs) ys)) = length ys * length xs"
  by (induction ys) simp_all

lemma linspace_samples:
  assumes "1 \<le> num"
  obtains xs where "linspace a b num = Inr xs" "length xs = nat num"
    "\<And>i. i < nat num \<Longrightarrow> xs ! i = a + real i * ((b - a) / real_of_int (num - 1))"
proof -
  from assms obtain xs where xs: "linspace a b num = Inr xs" "length xs = nat num"
    using linspace_length [of num a b] by auto
  have "xs ! i = a + real i * ((b - a) / real_of_int (num - 1))" if "i < nat num" for i
    using linspace_nth [OF assms that, of a b] xs by auto
  with xs show thesis using that by blast
qed

text \<open>
  Claim C2. For counts \<open>nx \<ge> 1\<close> and \<open>ny \<ge> 1\<close> the generator returns \<open>nx * ny\<close> pairs in
  row-major order: the entry at position \<open>i * nx + j\<close> holds the \<open>j\<close>-th of \<open>nx\<close> longitudes
  interpolated linearly between the corners (rounded to seven places and rendered as a string)
  and the \<open>i\<close>-th of \<open>ny\<close> latitudes interpolated likewise (rendered as a string). The first
  \<open>nx\<close> entries share the second component, that of the first corner, and both end points of
  each dimension occur when its count exceeds one.
\<close>

theorem grid_row_major:
  assumes "1 \<le> nx" "1 \<le> ny"
  shows "\<exists>g. fetch_format_from_to rt f t nx ny = Inr g \<and>
           length g = nat nx * nat ny \<and>
           (\<forall>i<nat ny. \<forall>j<nat nx.
              g ! (i * nat nx + j) =
                (str_float rt (round7 rt (fst f + real j * ((fst t - fst f) / real_of_int (nx - 1)))),
                 str_float rt (snd f + real i * ((snd t - snd f) / real_of_int (ny - 1))))) \<and>
           (\<forall>j<nat nx. snd (g ! j) = str_float rt (snd f)) \<and>
           (1 < nx \<longrightarrow> fst (g ! (nat nx - 1)) = str_float rt (round7 rt (fst t))) \<and>
           (1 < ny \<longrightarrow> snd (g ! ((nat ny - 1) * nat nx)) = str_float rt (snd t))"
proof -
  obtain xs where xs: "linspace (fst f) (fst t) nx = Inr xs" "length xs = nat nx"
    "\<And>j. j < nat nx \<Longrightarrow> xs ! j = fst f + real j * ((fst t - fst f) / real_of_int (nx - 1))"
    using linspace_samples [OF assms(1)] by blast
  obtain ys where ys: "linspace (snd f) (snd t) ny = Inr ys" "length ys = nat ny"
    "\<And>i. i < nat ny \<Longrightarrow> ys ! i = snd f + real i * ((snd t - snd f) / real_of_int (ny - 1))"
    using linspace_samples [OF assms(2)] by blast
  define cell where "cell = (\<lambda>y x. (str_float rt (round7 rt x), str_float rt y))"
  define g where "g = concat (map (\<lambda>y. map (cell y) xs) ys)"
  have run: "fetch_format_from_to rt f t nx ny = Inr g"
    using ys(1) from_to_loop_ok [OF xs(1), of rt "[]" ys]
    by (simp add: fetch_format_from_to_def g_def cell_def)
  have len: "length g = nat nx * nat ny"
    by (simp add: g_def length_concat_map_const xs(2) ys(2))
  have nth: "g ! (i * nat nx + j) = cell (ys ! i) (xs ! j)" if "i < nat ny" "j < nat nx" for i j
    using concat_map_nth [of i ys j xs cell] that xs(2) ys(2) by (simp add: g_def)
  have elems: "g ! (i * nat nx + j) =
                (str_float rt (round7 rt (fst f + real j * ((fst t - fst f) / real_of_int (nx - 1)))),
                 str_float rt (snd f + real i * ((snd t - snd f) / real_of_int (ny - 1))))"
    if "i < nat ny" "j < nat nx" for i j
    using nth [OF that] xs(3) [OF that(2)] ys(3) [OF that(1)] by (simp add: cell_def)
  have row0: "snd (g ! j) = str_float rt (snd f)" if "j < nat nx" for j
  proof -
    have "0 < nat ny" using assms(2) by simp
    from elems [OF this that] show ?thesis by simp
  qed
  have lastx: "fst (g ! (nat nx - 1)) = str_float rt (round7 rt (fst t))" if "1 < nx"
  proof -
    have "0 < nat ny" "nat nx - 1 < nat nx" using assms by simp_all
    from elems [OF this] have "fst (g ! (nat nx - 1)) =
        str_float rt (round7 rt (fst f + real (nat nx - 1) * ((fst t - fst f) / real_of_int (nx - 1))))"
      by simp
    moreover have "real (nat nx - 1) = real_of_int (nx - 1)" using that by simp
    ultimately show ?thesis using that by simp
  qed
  have lasty: "snd (g ! ((nat ny - 1) * nat nx)) = str_float rt (snd t)" if "1 < ny"
  proof -
    have "nat ny - 1 < nat ny" "0 < nat nx" using assms by simp_all
    from elems [OF this] have "snd (g ! ((nat ny - 1) * nat nx)) =
        str_float rt (snd f + real (nat ny - 1) * ((snd t - snd f) / real_of_int (ny - 1)))"
      by simp
    moreover have "real (nat ny - 1) = real_of_int (ny - 1)" using that by simp
    ultimately show ?thesis using that by simp
  qed
  show ?thesis
    using run len elems row0 lastx lasty by blast
qed

text \<open>
  The theorem on the 2 by 2 grid between \<open>(0, 0)\<close> and \<open>(1, 1)\<close>.
\<close>

theorem grid_row_major_witness:
  "(1::int) \<le> 2 \<and>
   fetch_format_from_to demo_runtime (0, 0) (1, 1) 2 2 =
     Inr [(''0.0'', ''0.0''), (''1.0'', ''0.0''), (''0.0'', ''1.0''), (''1.0'', ''1.0'')]"
proof -
  have h: "(1::int) \<le> 2" by simp
  from grid_row_major [OF h h, of demo_runtime "(0, 0)" "(1, 1)"]
  obtain g where g: "fetch_format_from_to demo_runtime (0, 0) (1, 1) 2 2 = Inr g"
    "length g = 4"
    "\<forall>i<2. \<forall>j<2. g ! (i * 2 + j) =
        (str_float demo_runtime (round7 demo_runtime (real j)), str_float demo_runtime (real i))"
    by auto
  have "g ! (0 * 2 + 0) = (''0.0'', ''0.0'')" "g ! (0 * 2 + 1) = (''1.0'', ''0.0'')"
    "g ! (1 * 2 + 0) = (''0.0'', ''1.0'')" "g ! (1 * 2 + 1) = (''1.0'', ''1.0'')"
    using g(3) [rule_format, of 0 0] g(3) [rule_format, of 0 1]
      g(3) [rule_format, of 1 0] g(3) [rule_format, of 1 1]
    by (simp_all add: demo_runtime_def demo_str_def)
  then have "g ! 0 = (''0.0'', ''0.0'')" "g ! 1 = (''1.0'', ''0.0'')"
    "g ! 2 = (''0.0'', ''1.0'')" "g ! 3 = (''1.0'', ''1.0'')"
    by simp_all
  with g(2) have "g = [(''0.0'', ''0.0''), (''1.0'', ''0.0''), (''0.0'', ''1.0''), (''1.0'', ''1.0'')]"
    by (intro nth_equalityI) (auto simp: less_Suc_eq eval_nat_numeral)
  with g(1) show ?thesis by simp
qed

text \<open>
  Claim C8 as stated fails: with \<open>nx = 0\<close> and \<open>ny = 1\<close> the generator returns the empty list
  and raises nothing.
\<close>

theorem grid_zero_count_counterexample:
  "fetch_format_from_to demo_runtime (0, 0) (1, 1) 0 1 = Inr []"
  by (simp add: fetch_format_from_to_def linspace_def)

text \<open>
  Claim C8, amended. The generator checks no argument itself. With \<open>nx < 1\<close> or \<open>ny < 1\<close> it
  raises \<^verbatim>\<open>ValueError\<close> (from \<^verbatim>\<open>np.linspace\<close>) when \<open>ny\<close> is negative, or when \<open>ny \<ge> 1\<close> and
  \<open>nx\<close> is negative; in every other case it returns the empty list.
\<close>

theorem grid_no_validation:
  assumes "nx < 1 \<or> ny < 1"
  shows "fetch_format_from_to rt f t nx ny =
           (if ny < 0 \<or> (0 < ny \<and> nx < 0) then Inl ValueError else Inr [])"
proof (cases "ny < 0")
  case True
  then show ?thesis by (simp add: fetch_format_from_to_def linspace_neg)
next
  case False
  note ny0 = this
  show ?thesis
  proof (cases "ny = 0")
    case True
    then show ?thesis by (simp add: fetch_format_from_to_def linspace_zero)
  next
    case False
    with ny0 assms have ny: "1 \<le> ny" and nx: "nx < 1" by simp_all
    obtain ys where ys: "linspace (snd f) (snd t) ny = Inr ys" "length ys = nat ny"
      using linspace_length [of ny "snd f" "snd t"] ny by auto
    then have ne: "ys \<noteq> []" using ny by auto
    show ?thesis
    proof (cases "nx < 0")
      case True
      then show ?thesis
        using ys ny from_to_loop_err [OF linspace_neg [OF True] ne]
        by (simp add: fetch_format_from_to_def)
    next
      case False
      with nx have "nx = 0" by simp
      then show ?thesis
        using ys ny from_to_loop_ok [OF linspace_zero, of rt "fst f" "fst t" "[]" ys]
        by (simp add: fetch_format_from_to_def)
    qed
  qed
qed

text \<open>
  The theorem at \<open>nx = -1\<close>, \<open>ny = 1\<close>.
\<close>

theorem grid_no_validation_witness:
  "((-1::int) < 1 \<or> (1::int) < 1) \<and>
   fetch_format_from_to demo_runtime (0, 0) (1, 1) (-1) 1 = Inl ValueError"
  using grid_no_validation [of "-1" 1 demo_runtime "(0, 0)" "(1, 1)"] by simp

section \<open>Properties of the stored plots\<close>

lemma store_rows_zip:
  assumes "length X = length Y" "length Y = length Z"
  shows "map (\<lambda>i. [s (X ! i), s (Y ! i), s (Z ! i)]) [0..<length X] =
         map (\<lambda>(a, b, c). [s a, s b, s c]) (zip X (zip Y Z))"
  using assms by (intro nth_equalityI) simp_all

lemma load_loop_rows:
  assumes "\<forall>(a, b, c) \<in> set ts.
             float_str rt (s a) = Some a \<and> float_str rt (s b) = Some b \<and> float_str rt (s c) = Some c"
  shows "load_loop rt (x, y, z) (enumerate (Suc n) (map (\<lambda>(a, b, c). [s a, s b, s c]) ts)) =
           Inr (x @ map fst ts, y @ map (fst \<circ> snd) ts, z @ map (snd \<circ> snd) ts)"
  using assms
proof (induction ts arbitrary: x y z n)
  case Nil
  then show ?case by simp
next
  case (Cons p ts)
  obtain a b c where p: "p = (a, b, c)" by (cases p) auto
  from Cons.prems p have rt: "float_str rt (s a) = Some a" "float_str rt (s b) = Some b"
    "float_str rt (s c) = Some c" by auto
  from Cons.prems have rest: "\<forall>(a, b, c) \<in> set ts.
      float_str rt (s a) = Some a \<and> float_str rt (s b) = Some b \<and> float_str rt (s c) = Some c"
    by simp
  show ?case
    using Cons.IH [OF rest, of "x @ [a]" "y @ [b]" "z @ [c]" "Suc n"] rt p
    by (simp add: float_cell_def)
qed

text \<open>
  Claim C5. For three lists of equal length whose values are read back by \<^verbatim>\<open>float\<close> from
  their rendering by \<^verbatim>\<open>str\<close>, storing them under a name with \<^verbatim>\<open>overwrite=True\<close> succeeds, and
  loading that name afterwards returns the same three lists.
\<close>

theorem store_load_roundtrip:
  assumes "length X = length Y" "length Y = length Z"
    and "\<forall>v \<in> set X \<union> set Y \<union> set Z. float_str rt (str_float rt v) = Some v"
  shows "fst (store_plot rt X Y Z plot_name True fs) \<and>
         load_data rt (snd (store_plot rt X Y Z plot_name True fs)) plot_name = Inr (Some (X, Y, Z))"
proof -
  let ?ts = "zip X (zip Y Z)"
  have ok: "\<forall>(a, b, c) \<in> set ?ts.
      float_str rt (str_float rt a) = Some a \<and> float_str rt (str_float rt b) = Some b \<and>
      float_str rt (str_float rt c) = Some c"
  proof (clarify, intro conjI)
    fix a b c assume "(a, b, c) \<in> set ?ts"
    then have "a \<in> set X" "(b, c) \<in> set (zip Y Z)"
      by (auto dest: set_zip_leftD set_zip_rightD)
    then have mem: "a \<in> set X" "b \<in> set Y" "c \<in> set Z"
      by (auto dest: set_zip_leftD set_zip_rightD)
    show "float_str rt (str_float rt a) = Some a" using assms(3) mem(1) by simp
    show "float_str rt (str_float rt b) = Some b" using assms(3) mem(2) by simp
    show "float_str rt (str_float rt c) = Some c" using assms(3) mem(3) by simp
  qed
  have cols: "map fst ?ts = X" "map (fst \<circ> snd) ?ts = Y" "map (snd \<circ> snd) ?ts = Z"
    using assms(1,2) by (simp_all flip: map_map)
  have "load_loop rt ([], [], [])
          (enumerate 0 (CSV_HEADER # map (\<lambda>(a, b, c). [str_float rt a, str_float rt b, str_float rt c]) ?ts)) =
        Inr (X, Y, Z)"
    using load_loop_rows [OF ok, of "[]" "[]" "[]" 0] cols by simp
  then show ?thesis
    using assms(1,2) store_rows_zip [OF assms(1,2), of "str_float rt"]
    by (simp add: store_plot_def load_data_def Let_def)
qed

text \<open>
  The theorem on two points, stored in an empty storage.
\<close>

theorem store_load_roundtrip_witness:
  "length [0, 1 :: real] = length [1 / 2, 1 / 2 :: real] \<and>
   length [1 / 2, 1 / 2 :: real] = length [5 / 2, 0 :: real] \<and>
   fst (store_plot demo_runtime [0, 1] [1 / 2, 1 / 2] [5 / 2, 0] ''mt_st_helens'' True Map.empty) \<and>
   load_data demo_runtime
     (snd (store_plot demo_runtime [0, 1] [1 / 2, 1 / 2] [5 / 2, 0] ''mt_st_helens'' True Map.empty))
     ''mt_st_helens'' = Inr (Some ([0, 1], [1 / 2, 1 / 2], [5 / 2, 0]))"
proof -
  have h1: "length [0, 1 :: real] = length [1 / 2, 1 / 2 :: real]" by simp
  have h2: "length [1 / 2, 1 / 2 :: real] = length [5 / 2, 0 :: real]" by simp
  have h3: "\<forall>v \<in> set [0, 1] \<union> set [1 / 2, 1 / 2] \<union> set [5 / 2, 0].
              float_str demo_runtime (str_float demo_runtime v) = Some v"
    by (simp add: demo_runtime_def demo_str_def demo_float_def)
  show ?thesis
    using store_load_roundtrip [OF h1 h2 h3, of "''mt_st_helens''" Map.empty] by simp
qed

text \<open>
  Claim C7. When a file exists for the name, \<^verbatim>\<open>store_plot\<close> with \<^verbatim>\<open>overwrite=False\<close> returns
  \<^verbatim>\<open>False\<close> and leaves the whole storage, that file included, as it was.
\<close>

theorem store_no_overwrite:
  assumes "fs (plot_path rt plot_name) = Some rows"
  shows "store_plot rt X Y Z plot_name False fs = (False, fs)"
  using assms by (simp add: store_plot_def isfile_def Let_def)

text \<open>
  The theorem on a storage that holds a file with the header only.
\<close>

theorem store_no_overwrite_witness:
  "[plot_path demo_runtime ''mt_st_helens'' \<mapsto> [CSV_HEADER]] (plot_path demo_runtime ''mt_st_helens'')
     = Some [CSV_HEADER] \<and>
   store_plot demo_runtime [0] [1] [5 / 2] ''mt_st_helens'' False
     [plot_path demo_runtime ''mt_st_helens'' \<mapsto> [CSV_HEADER]] =
     (False, [plot_path demo_runtime ''mt_st_helens'' \<mapsto> [CSV_HEADER]])"
proof -
  have h: "[plot_path demo_runtime ''mt_st_helens'' \<mapsto> [CSV_HEADER]]
             (plot_path demo_runtime ''mt_st_helens'') = Some [CSV_HEADER]" by simp
  show ?thesis
    using store_no_overwrite [of "[plot_path demo_runtime ''mt_st_helens'' \<mapsto> [CSV_HEADER]]"
        demo_runtime "''mt_st_helens''" "[CSV_HEADER]" "[0]" "[1]" "[5 / 2]"] h
    by simp
qed

text \<open>
  Claim C10. When the three lists do not all have the same length, \<^verbatim>\<open>store_plot\<close> returns
  \<^verbatim>\<open>False\<close> and leaves the storage as it was, whatever the \<^verbatim>\<open>overwrite\<close> flag.
\<close>

theorem store_unequal_lengths:
  assumes "\<not> (length X = length Y \<and> length Y = length Z)"
  shows "store_plot rt X Y Z plot_name overwrite fs = (False, fs)"
  using assms by (simp add: store_plot_def Let_def)

text \<open>
  The theorem on lists of lengths 1, 0 and 0.
\<close>

theorem store_unequal_lengths_witness:
  "\<not> (length [0 :: real] = length ([] :: real list) \<and> length ([] :: real list) = length ([] :: real list)) \<and>
   store_plot demo_runtime [0] [] [] ''mt_st_helens'' True Map.empty = (False, Map.empty)"
proof -
  have h: "\<not> (length [0 :: real] = length ([] :: real list) \<and>
               length ([] :: real list) = length ([] :: real list))" by simp
  show ?thesis using store_unequal_lengths [OF h, of demo_runtime "''mt_st_helens''" True Map.empty] by simp
qed

section \<open>Properties of the script\<close>

lemma format_coords_from_to:
  assumes "from_coords kwargs = Some f" "to_coords kwargs = Some t"
    "horizontal_data_points kwargs = Some h" "vertical_data_points kwargs = Some v"
  shows "format_coords rt ''from_to'' kwargs = fetch_format_from_to rt f t h v"
  using assms by (simp add: format_coords_def MODES_def kw_def raising_def)

lemma format_coords_around:
  assumes "center_coords kwargs = Some c"
    "horizontal_data_points kwargs = Some h" "vertical_data_points kwargs = Some v"
    "width kwargs = Some w" "height kwargs = Some ht"
  shows "format_coords rt ''around'' kwargs = fetch_format_around rt c h v w ht"
  using assms by (simp add: format_coords_def MODES_def kw_def raising_def)

lemma plot_format_lengths:
  "plot_format response = (X, Y, Z) \<Longrightarrow> length X = length Y \<and> length Y = length Z"
  by (auto simp: plot_format_def)

text \<open>
  Claim C6. When \<^verbatim>\<open>load_data\<close> returns the three lists stored under the name, the script hands
  them on unchanged, leaves the storage as it was and issues no request. When \<^verbatim>\<open>load_data\<close>
  returns \<^verbatim>\<open>None\<close>, the grid generator of the mode gives the coordinates, \<^verbatim>\<open>fetch\<close> is run on
  them, and if it returns a response, the three lists that \<^verbatim>\<open>plot_format\<close> makes of it are
  handed on and are stored under the name by \<^verbatim>\<open>store_plot\<close> with \<^verbatim>\<open>overwrite=True\<close>, which
  writes the file; the requests issued are those of the fetch.
\<close>

theorem main_hit_or_miss:
  "(load_data rt fs plot_name = Inr (Some xyz) \<longrightarrow>
      main_with rt tr fs plot_name mode kwargs = (Inr xyz, fs, [])) \<and>
   (load_data rt fs plot_name = Inr None \<and>
    (mode = ''from_to'' \<and> from_coords kwargs = Some f \<and> to_coords kwargs = Some t \<and>
       horizontal_data_points kwargs = Some h \<and> vertical_data_points kwargs = Some v \<and>
       fetch_format_from_to rt f t h v = Inr formatted_coords
     \<or>
     mode = ''around'' \<and> center_coords kwargs = Some c \<and>
       horizontal_data_points kwargs = Some h \<and> vertical_data_points kwargs = Some v \<and>
       width kwargs = Some w \<and> height kwargs = Some ht \<and>
       fetch_format_around rt c h v w ht = Inr formatted_coords) \<and>
    fetch tr formatted_coords = (Inr response, reqs) \<and>
    plot_format response = (X, Y, Z) \<longrightarrow>
      main_with rt tr fs plot_name mode kwargs =
        (Inr (X, Y, Z), snd (store_plot rt X Y Z plot_name True fs), reqs) \<and>
      store_plot rt X Y Z plot_name True fs =
        (True,
         fs(plot_path rt plot_name \<mapsto> CSV_HEADER #
              map (\<lambda>i. [str_float rt (X ! i), str_float rt (Y ! i), str_float rt (Z ! i)])
                [0..<length X])))"
proof (intro conjI impI)
  assume "load_data rt fs plot_name = Inr (Some xyz)"
  then show "main_with rt tr fs plot_name mode kwargs = (Inr xyz, fs, [])"
    by (simp add: main_with_def)
next
  assume a: "load_data rt fs plot_name = Inr None \<and>
    (mode = ''from_to'' \<and> from_coords kwargs = Some f \<and> to_coords kwargs = Some t \<and>
       horizontal_data_points kwargs = Some h \<and> vertical_data_points kwargs = Some v \<and>
       fetch_format_from_to rt f t h v = Inr formatted_coords
     \<or>
     mode = ''around'' \<and> center_coords kwargs = Some c \<and>
       horizontal_data_points kwargs = Some h \<and> vertical_data_points kwargs = Some v \<and>
       width kwargs = Some w \<and> height kwargs = Some ht \<and>
       fetch_format_around rt c h v w ht = Inr formatted_coords) \<and>
    fetch tr formatted_coords = (Inr response, reqs) \<and>
    plot_format response = (X, Y, Z)"
  then have miss: "load_data rt fs plot_name = Inr None"
    and fetched: "fetch tr formatted_coords = (Inr response, reqs)"
    and xyz: "plot_format response = (X, Y, Z)" by simp_all
  from a have mode: "mode \<in> set MODES" by (auto simp: MODES_def)
  from a have grid: "format_coords rt mode kwargs = Inr formatted_coords"
    using format_coords_from_to [of kwargs f t h v rt]
      format_coords_around [of kwargs c h v w ht rt] by auto
  have api: "API_call rt tr mode kwargs = (Inr (X, Y, Z), reqs)"
    using mode grid fetched xyz by (simp add: API_call_def)
  show "main_with rt tr fs plot_name mode kwargs =
        (Inr (X, Y, Z), snd (store_plot rt X Y Z plot_name True fs), reqs)"
    using miss api by (simp add: main_with_def)
  show "store_plot rt X Y Z plot_name True fs =
        (True,
         fs(plot_path rt plot_name \<mapsto> CSV_HEADER #
              map (\<lambda>i. [str_float rt (X ! i), str_float rt (Y ! i), str_float rt (Z ! i)])
                [0..<length X]))"
    using plot_format_lengths [OF xyz] by (simp add: store_plot_def Let_def)
qed

text \<open>
  The theorem on a storage that holds the plot, and on an empty storage with a grid of one
  point and a transport that answers every request.
\<close>

theorem main_hit_or_miss_witness:
  "load_data demo_runtime stored_sample ''mt_st_helens'' = Inr (Some ([0], [1], [5 / 2])) \<and>
   main_with demo_runtime down_transport stored_sample ''mt_st_helens'' ''around'' sample_kwargs =
     (Inr ([0], [1], [5 / 2]), stored_sample, []) \<and>
   load_data demo_runtime Map.empty ''mt_st_helens'' = Inr None \<and>
   fetch_format_around demo_runtime (0, 0) 1 1 0 0 = Inr [(''0.0'', ''0.0'')] \<and>
   fetch echo_transport [(''0.0'', ''0.0'')] = (Inr [sample_point], [BASE_URL @ ''0.0,0.0'']) \<and>
   main_with demo_runtime echo_transport Map.empty ''mt_st_helens'' ''around'' sample_kwargs =
     (Inr ([0], [0], [1]),
      [plot_path demo_runtime ''mt_st_helens'' \<mapsto> [CSV_HEADER, [''0.0'', ''0.0'', ''1.0'']]],
      [BASE_URL @ ''0.0,0.0''])"
proof -
  have hit: "load_data demo_runtime stored_sample ''mt_st_helens'' = Inr (Some ([0], [1], [5 / 2]))"
    by (simp add: load_data_def stored_sample_def float_cell_def demo_runtime_def demo_float_def)
  have miss: "load_data demo_runtime Map.empty ''mt_st_helens'' = Inr None"
    by (simp add: load_data_def)
  have grid: "fetch_format_around demo_runtime (0, 0) 1 1 0 0 = Inr [(''0.0'', ''0.0'')]"
    by (simp add: fetch_format_around_def fetch_format_from_to_def linspace_def
        demo_runtime_def demo_str_def)
  have fetched: "fetch echo_transport [(''0.0'', ''0.0'')] =
      (Inr [sample_point], [BASE_URL @ ''0.0,0.0''])"
    by code_simp
  have xyz: "plot_format [sample_point] = ([0], [0], [1])"
    by (simp add: plot_format_def sample_point_def)
  have kws: "center_coords sample_kwargs = Some (0, 0)"
    "horizontal_data_points sample_kwargs = Some 1" "vertical_data_points sample_kwargs = Some 1"
    "width sample_kwargs = Some 0" "height sample_kwargs = Some 0"
    by (simp_all add: sample_kwargs_def)
  have run_hit: "main_with demo_runtime down_transport stored_sample ''mt_st_helens'' ''around''
      sample_kwargs = (Inr ([0], [1], [5 / 2]), stored_sample, [])"
    using main_hit_or_miss [where rt = demo_runtime and fs = stored_sample
        and plot_name = "''mt_st_helens''" and xyz = "([0], [1], [5 / 2])"
        and tr = down_transport and mode = "''around''" and kwargs = sample_kwargs] hit
    by simp
  have run_miss: "main_with demo_runtime echo_transport Map.empty ''mt_st_helens'' ''around''
      sample_kwargs =
     (Inr ([0], [0], [1]),
      [plot_path demo_runtime ''mt_st_helens'' \<mapsto> [CSV_HEADER, [''0.0'', ''0.0'', ''1.0'']]],
      [BASE_URL @ ''0.0,0.0''])"
    using main_hit_or_miss [where rt = demo_runtime and fs = Map.empty
        and plot_name = "''mt_st_helens''" and tr = echo_transport and mode = "''around''"
        and kwargs = sample_kwargs and formatted_coords = "[(''0.0'', ''0.0'')]"
        and c = "(0, 0)" and h = 1 and v = 1 and w = 0 and ht = 0
        and response = "[sample_point]" and reqs = "[BASE_URL @ ''0.0,0.0'']"
        and X = "[0]" and Y = "[0]" and Z = "[1]"]
      miss grid fetched xyz kws
    by (simp add: demo_runtime_def demo_str_def)
  show ?thesis
    using hit run_hit miss grid fetched run_miss by blast
qed

section \<open>Properties of the fetch on the wall clock\<close>




lemma timed_step_gather:
  "fst ic mod 100 \<noteq> 0 \<Longrightarrow>
   timed_step clock fuel tr ts ic =
     (case fetch_step tr (loop ts) ic of
        Inl (e, reqs) \<Rightarrow> Inl (Raised e, starts ts, reqs)
      | Inr st \<Rightarrow> Inr (ts\<lparr>loop := st\<rparr>))"
  by (simp add: timed_step_def)

lemma timed_step_hung:
  "fst ic mod 100 = 0 \<Longrightarrow> busy_wait clock (timer ts) fuel (events ts) = None \<Longrightarrow>
   timed_step clock fuel tr ts ic = Inl (Hung, starts ts, requests (loop ts))"
  by (simp add: timed_step_def)

lemma timed_step_raised:
  "fst ic mod 100 = 0 \<Longrightarrow> busy_wait clock (timer ts) fuel (events ts) = Some k \<Longrightarrow>
   fetch_step tr (loop ts) ic = Inl (e, reqs) \<Longrightarrow>
   timed_step clock fuel tr ts ic = Inl (Raised e, starts ts @ [clock k], reqs)"
  by (simp add: timed_step_def)

lemma timed_step_batch:
  "fst ic mod 100 = 0 \<Longrightarrow> busy_wait clock (timer ts) fuel (events ts) = Some k \<Longrightarrow>
   fetch_step tr (loop ts) ic = Inr st \<Longrightarrow>
   timed_step clock fuel tr ts ic =
     Inr \<lparr>loop = st,
          timer = clock (k + (length (requests st) - length (requests (loop ts)))),
          events = Suc (k + (length (requests st) - length (requests (loop ts)))),
          starts = starts ts @ [clock k]\<rparr>"
  by (simp add: timed_step_def Let_def)











text \<open>
  A timed run that does not hang ends as \<open>fetch\<close> does, with the same requests, and no run
  hangs when the fuel allows \<open>N\<close> tests and every \<open>N\<close> consecutive events take a second or more.
\<close>

lemma timed_step_agrees:
  "timed_step clock fuel tr ts ic = Inr ts' \<Longrightarrow> fetch_step tr (loop ts) ic = Inr (loop ts')"
  "timed_step clock fuel tr ts ic = Inl (Raised e, ss, reqs) \<Longrightarrow>
     fetch_step tr (loop ts) ic = Inl (e, reqs)"
proof -
  assume run: "timed_step clock fuel tr ts ic = Inr ts'"
  show "fetch_step tr (loop ts) ic = Inr (loop ts')"
  proof (cases "fst ic mod 100 = 0")
    case False
    with run show ?thesis
      by (cases "fetch_step tr (loop ts) ic")
         (auto simp: timed_step_gather split: prod.splits)
  next
    case True
    show ?thesis
    proof (cases "busy_wait clock (timer ts) fuel (events ts)")
      case None
      with run True show ?thesis by (simp add: timed_step_hung)
    next
      case (Some k)
      show ?thesis
      proof (cases "fetch_step tr (loop ts) ic")
        case (Inl a)
        obtain e' reqs' where "a = (e', reqs')" by (cases a) auto
        with Inl run timed_step_raised [OF True Some, of tr e' reqs'] show ?thesis by simp
      next
        case (Inr st)
        with run timed_step_batch [OF True Some Inr] show ?thesis by auto
      qed
    qed
  qed
next
  assume run: "timed_step clock fuel tr ts ic = Inl (Raised e, ss, reqs)"
  show "fetch_step tr (loop ts) ic = Inl (e, reqs)"
  proof (cases "fst ic mod 100 = 0")
    case False
    with run show ?thesis
      by (cases "fetch_step tr (loop ts) ic")
         (auto simp: timed_step_gather split: prod.splits)
  next
    case True
    show ?thesis
    proof (cases "busy_wait clock (timer ts) fuel (events ts)")
      case None
      with run True show ?thesis by (simp add: timed_step_hung)
    next
      case (Some k)
      show ?thesis
      proof (cases "fetch_step tr (loop ts) ic")
        case (Inl a)
        obtain e' reqs' where "a = (e', reqs')" by (cases a) auto
        with Inl run timed_step_raised [OF True Some, of tr e' reqs'] show ?thesis by simp
      next
        case (Inr st)
        with run timed_step_batch [OF True Some Inr] show ?thesis by simp
      qed
    qed
  qed
qed

lemma timed_loop_agrees:
  "timed_loop clock fuel tr ts ics = Inr ts' \<Longrightarrow> fetch_loop tr (loop ts) ics = Inr (loop ts')"
  "timed_loop clock fuel tr ts ics = Inl (Raised e, ss, reqs) \<Longrightarrow>
     fetch_loop tr (loop ts) ics = Inl (e, reqs)"
proof (induction ics arbitrary: ts)
  case Nil
  { case 1 then show ?case by simp }
  { case 2 then show ?case by simp }
next
  case (Cons ic ics)
  { case 1
    then show ?case
      by (cases "timed_step clock fuel tr ts ic")
         (auto simp: timed_step_agrees(1) Cons.IH(1)) }
  { case 2
    show ?case
    proof (cases "timed_step clock fuel tr ts ic")
      case (Inl r)
      with 2 have "timed_step clock fuel tr ts ic = Inl (Raised e, ss, reqs)" by simp
      from timed_step_agrees(2) [OF this] show ?thesis by simp
    next
      case (Inr ts1)
      with 2 have "timed_loop clock fuel tr ts1 ics = Inl (Raised e, ss, reqs)" by simp
      from Cons.IH(2) [OF this] timed_step_agrees(1) [OF Inr] show ?thesis by simp
    qed }
qed

lemma timed_step_end:
  "timed_step clock fuel tr ts ic \<noteq> Inl (Returned d, ss, reqs)"
proof (cases "fst ic mod 100 = 0")
  case False
  show ?thesis
  proof (cases "fetch_step tr (loop ts) ic")
    case (Inl a)
    then show ?thesis by (cases a) (simp add: timed_step_gather [OF False])
  next
    case (Inr st)
    then show ?thesis by (simp add: timed_step_gather [OF False])
  qed
next
  case True
  show ?thesis
  proof (cases "busy_wait clock (timer ts) fuel (events ts)")
    case None
    then show ?thesis by (simp add: timed_step_hung [OF True])
  next
    case (Some k)
    show ?thesis
    proof (cases "fetch_step tr (loop ts) ic")
      case (Inl a)
      obtain e' reqs' where "a = (e', reqs')" by (cases a) auto
      with Inl timed_step_raised [OF True Some, of tr e' reqs'] show ?thesis by simp
    next
      case (Inr st)
      from timed_step_batch [OF True Some Inr] show ?thesis by simp
    qed
  qed
qed

lemma timed_loop_end:
  "timed_loop clock fuel tr ts ics \<noteq> Inl (Returned d, ss, reqs)"
proof (induction ics arbitrary: ts)
  case Nil
  then show ?case by simp
next
  case (Cons ic ics)
  show ?case
  proof (cases "timed_step clock fuel tr ts ic")
    case (Inl r)
    with timed_step_end [of clock fuel tr ts ic d ss reqs] show ?thesis by auto
  next
    case (Inr ts')
    with Cons.IH [of ts'] show ?thesis by simp
  qed
qed

lemma timed_fetch_agrees:
  "timed_fetch clock fuel tr coords = (Raised e, ss, reqs) \<Longrightarrow> fetch tr coords = (Inl e, reqs)"
  "timed_fetch clock fuel tr coords = (Returned d, ss, reqs) \<Longrightarrow> fetch tr coords = (Inr d, reqs)"
proof -
  assume run: "timed_fetch clock fuel tr coords = (Raised e, ss, reqs)"
  then have "timed_loop clock fuel tr (timed_init clock) (enumerate 0 coords) = Inl (Raised e, ss, reqs)"
    by (auto simp: timed_fetch_def split: sum.splits)
  from timed_loop_agrees(2) [OF this] show "fetch tr coords = (Inl e, reqs)"
    by (simp add: fetch_def timed_init_def)
next
  assume run: "timed_fetch clock fuel tr coords = (Returned d, ss, reqs)"
  then obtain ts where ts: "timed_loop clock fuel tr (timed_init clock) (enumerate 0 coords) = Inr ts"
    "d = data (loop ts)" "reqs = requests (loop ts)"
    using timed_loop_end [of clock fuel tr "timed_init clock" "enumerate 0 coords" d ss reqs]
    by (auto simp: timed_fetch_def split: sum.splits)
  from timed_loop_agrees(1) [OF ts(1)] ts(2,3) show "fetch tr coords = (Inr d, reqs)"
    by (simp add: fetch_def timed_init_def)
qed

lemma busy_wait_progress:
  "i < fuel \<Longrightarrow> tm + 1 \<le> clock (k + i) \<Longrightarrow> busy_wait clock tm fuel k \<noteq> None"
proof (induction fuel arbitrary: k i)
  case 0
  then show ?case by simp
next
  case (Suc fuel)
  show ?case
  proof (cases "clock k - tm < 1")
    case False
    then show ?thesis by simp
  next
    case True
    with Suc.prems(2) have "i \<noteq> 0" by (cases i) auto
    then obtain j where j: "i = Suc j" by (cases i) auto
    with Suc.prems have "j < fuel" "tm + 1 \<le> clock (Suc k + j)" by simp_all
    from Suc.IH [OF this] True show ?thesis by simp
  qed
qed

lemma timed_step_no_hang:
  assumes mono: "\<forall>k. clock k \<le> clock (Suc k)"
    and progress: "\<forall>k. clock k + 1 \<le> clock (k + N)"
    and fuel: "0 < N" "N \<le> fuel"
    and inv: "0 < events ts" "timer ts \<le> clock (events ts - 1)"
  shows "(case timed_step clock fuel tr ts ic of
            Inl r \<Rightarrow> fst r \<noteq> Hung
          | Inr ts' \<Rightarrow> 0 < events ts' \<and> timer ts' \<le> clock (events ts' - 1))"
proof (cases "fst ic mod 100 = 0")
  case False
  show ?thesis
  proof (cases "fetch_step tr (loop ts) ic")
    case (Inl a)
    then show ?thesis by (cases a) (simp add: timed_step_gather [OF False])
  next
    case (Inr st)
    then show ?thesis using inv by (simp add: timed_step_gather [OF False])
  qed
next
  case True
  have "timer ts + 1 \<le> clock (events ts - 1) + 1" using inv(2) by simp
  also have "\<dots> \<le> clock (events ts - 1 + N)" using progress by blast
  also have "events ts - 1 + N = events ts + (N - 1)" using inv(1) fuel(1) by simp
  finally have "timer ts + 1 \<le> clock (events ts + (N - 1))" .
  moreover have "N - 1 < fuel" using fuel by simp
  ultimately have "busy_wait clock (timer ts) fuel (events ts) \<noteq> None"
    by (rule busy_wait_progress [rotated])
  then obtain k where Some: "busy_wait clock (timer ts) fuel (events ts) = Some k" by auto
  show ?thesis
  proof (cases "fetch_step tr (loop ts) ic")
    case (Inl a)
    obtain e reqs where "a = (e, reqs)" by (cases a) auto
    with Inl timed_step_raised [OF True Some, of tr e reqs] show ?thesis by simp
  next
    case (Inr st)
    from timed_step_batch [OF True Some Inr] show ?thesis by simp
  qed
qed

lemma timed_loop_no_hang:
  assumes "\<forall>k. clock k \<le> clock (Suc k)" "\<forall>k. clock k + 1 \<le> clock (k + N)" "0 < N" "N \<le> fuel"
    and "0 < events ts" "timer ts \<le> clock (events ts - 1)"
  shows "timed_loop clock fuel tr ts ics \<noteq> Inl (Hung, ss, reqs)"
  using assms(5,6)
proof (induction ics arbitrary: ts)
  case Nil
  then show ?case by simp
next
  case (Cons ic ics)
  show ?case
  proof (cases "timed_step clock fuel tr ts ic")
    case (Inl r)
    with timed_step_no_hang [OF assms(1-4) Cons.prems, of tr ic] show ?thesis by auto
  next
    case (Inr ts')
    with timed_step_no_hang [OF assms(1-4) Cons.prems, of tr ic]
    have "0 < events ts'" "timer ts' \<le> clock (events ts' - 1)" by simp_all
    from Cons.IH [OF this] Inr show ?thesis by simp
  qed
qed

lemma timed_fetch_returns:
  assumes "\<forall>k. clock k \<le> clock (Suc k)" "\<forall>k. clock k + 1 \<le> clock (k + N)" "0 < N" "N \<le> fuel"
  shows "fst (timed_fetch clock fuel tr coords) \<noteq> Hung"
proof (cases "timed_loop clock fuel tr (timed_init clock) (enumerate 0 coords)")
  case (Inl r)
  obtain out ss reqs where r: "r = (out, ss, reqs)" by (cases r) auto
  have "timed_loop clock fuel tr (timed_init clock) (enumerate 0 coords) \<noteq> Inl (Hung, ss, reqs)"
    by (rule timed_loop_no_hang [OF assms]) (simp_all add: timed_init_def)
  with Inl r show ?thesis by (auto simp: timed_fetch_def)
next
  case (Inr ts)
  then show ?thesis by (simp add: timed_fetch_def)
qed

end
